theory Spec2Isabelle
  imports Main "HOL-Library.Sublist"
begin

section \<open>Python strings\<close>

text \<open>
  A Python \<open>str\<close> is a sequence of Unicode code points; \<open>len\<close> and slicing count code
  points. A string is therefore a list of code points, each a natural number, and an
  ASCII literal of the source is written \<open>lit ''...''\<close>.
\<close>

type_synonym codepoint = nat
type_synonym str = "codepoint list"

definition lit :: "string \<Rightarrow> str" where
  "lit cs = map of_char cs"

text \<open>
  \<open>str.isalnum\<close> and \<open>str.lower\<close> consult Python's Unicode tables, which are not part
  of the repository. Their behaviour on ASCII is written out; for code points from 128
  up the tables are a parameter of the model.
\<close>

record unicode =
  uc_isalnum :: "codepoint \<Rightarrow> bool"
  uc_lower :: "str \<Rightarrow> str"

definition is_ascii :: "str \<Rightarrow> bool" where
  "is_ascii s = list_all (\<lambda>c. c < 128) s"

definition isalnum :: "unicode \<Rightarrow> codepoint \<Rightarrow> bool" where
  "isalnum U c =
     (if c < 128 then (48 \<le> c \<and> c \<le> 57) \<or> (65 \<le> c \<and> c \<le> 90) \<or> (97 \<le> c \<and> c \<le> 122)
      else uc_isalnum U c)"

definition ascii_lower :: "codepoint \<Rightarrow> codepoint" where
  "ascii_lower c = (if 65 \<le> c \<and> c \<le> 90 then c + 32 else c)"

definition lower :: "unicode \<Rightarrow> str \<Rightarrow> str" where
  "lower U s = (if is_ascii s then map ascii_lower s else uc_lower U s)"

text \<open>The tables used where a concrete instance is evaluated: nothing beyond ASCII.\<close>

definition ascii_only :: unicode where
  "ascii_only = \<lparr>uc_isalnum = (\<lambda>c. False), uc_lower = (\<lambda>s. s)\<rparr>"

text \<open>\<open>needle in haystack\<close> on strings: the needle occurs as a contiguous run.\<close>

fun str_contains :: "str \<Rightarrow> str \<Rightarrow> bool" where
  "str_contains needle [] = (needle = [])"
| "str_contains needle (c # cs) = (prefix needle (c # cs) \<or> str_contains needle cs)"

definition startswith :: "str \<Rightarrow> str \<Rightarrow> bool" where
  "startswith s p = (take (length p) s = p)"

definition endswith :: "str \<Rightarrow> str \<Rightarrow> bool" where
  "endswith s suf = (length suf \<le> length s \<and> drop (length s - length suf) s = suf)"

text \<open>\<open>sep.join(parts)\<close>.\<close>

fun str_join :: "str \<Rightarrow> str list \<Rightarrow> str" where
  "str_join sep [] = []"
| "str_join sep [x] = x"
| "str_join sep (x # y # ys) = x @ sep @ str_join sep (y # ys)"

text \<open>
  \<open>s.replace(old, new)\<close>: every occurrence of \<open>old\<close>, left to right, not overlapping.
  For an empty \<open>old\<close> Python puts \<open>new\<close> before every character and at the end.
\<close>

function str_replace :: "str \<Rightarrow> str \<Rightarrow> str \<Rightarrow> str" where
  "str_replace old new s =
     (if old = [] then new @ concat (map (\<lambda>c. c # new) s)
      else if s = [] then []
      else if prefix old s then new @ str_replace old new (drop (length old) s)
      else hd s # str_replace old new (tl s))"
  by pat_completeness auto
termination
  by (relation "measure (\<lambda>(old, new, s). length s)") (auto simp: neq_Nil_conv)

declare str_replace.simps [simp del]

text \<open>
  \<open>xs[i:]\<close> for a Python integer \<open>i\<close>: a negative start counts from the end and is
  clamped at the front, a start beyond the end gives the empty list. \<open>xs[-0:]\<close> is
  \<open>xs[0:]\<close>, the whole list.
\<close>

definition py_slice_from :: "int \<Rightarrow> 'a list \<Rightarrow> 'a list" where
  "py_slice_from i xs =
     (let n = int (length xs);
          start = (if i < 0 then max (n + i) 0 else min i n)
      in drop (nat start) xs)"

section \<open>Paths and the file system\<close>

text \<open>\<open>os.path.join(a, b)\<close> on POSIX.\<close>

definition os_path_join :: "str \<Rightarrow> str \<Rightarrow> str" where
  "os_path_join a b =
     (if startswith b (lit ''/'') then b
      else if a = [] \<or> endswith a (lit ''/'') then a @ b
      else a @ lit ''/'' @ b)"

text \<open>
  The values held in preferences and metadata are JSON values (numbers are the integers
  here). A Python \<open>dict\<close> with string keys is a map from strings.
\<close>

datatype json =
    JNull
  | JBool bool
  | JInt int
  | JStr str
  | JList "json list"
  | JDict "(str \<times> json) list"

type_synonym dict = "str \<rightharpoonup> json"

record ConversationTurn =
  timestamp :: str
  user_message :: str
  bot_response :: str
  metadata :: dict

record UserMemory =
  user_id :: str
  created_at :: str
  conversations :: "ConversationTurn list"
  preferences :: dict

text \<open>
  The exceptions of the model. \<open>IOError\<close> is Python's \<open>OSError\<close> (a missing directory, a
  path that is a directory, no permission); \<open>JSONDecodeError\<close> is raised by \<open>json.load\<close>
  on text that is not JSON; \<open>UnicodeDecodeError\<close> by reading, with
  \<open>encoding='utf-8'\<close>, a file whose bytes are not UTF-8 (it is a \<open>ValueError\<close>, neither
  a \<open>JSONDecodeError\<close> nor an \<open>IOError\<close>).
\<close>

datatype exn = JSONDecodeError | IOError | UnicodeDecodeError

text \<open>
  What \<open>open(path, 'r', encoding='utf-8')\<close> followed by \<open>json.load\<close> finds in a file:
  a record of the shape the store writes, or content on which reading raises. Every file
  the program writes is the \<open>json.dump\<close> of a \<open>UserMemory\<close>. Well-formed JSON of any
  other shape, which \<open>json.load\<close> returns as it is and on which the operations then raise
  \<open>KeyError\<close>, \<open>TypeError\<close> or \<open>AttributeError\<close>, is outside the model.
\<close>

datatype file_content = Parsed UserMemory | Corrupt exn

text \<open>
  The file system: the regular files by path, and the directories that exist, each spelled
  the way the program spells it.
\<close>

record filesystem =
  files :: "(str \<times> file_content) list"
  dirs :: "str list"

text \<open>\<open>os.path.exists(p)\<close>; it is false for the empty path.\<close>

definition os_path_exists :: "filesystem \<Rightarrow> str \<Rightarrow> bool" where
  "os_path_exists fs p = (p \<noteq> [] \<and> (p \<in> set (dirs fs) \<or> map_of (files fs) p \<noteq> None))"

text \<open>\<open>is_child d p\<close>: the path \<open>p\<close> names an entry directly inside directory \<open>d\<close>.\<close>

definition dir_prefix :: "str \<Rightarrow> str" where
  "dir_prefix d = (if d = [] \<or> endswith d (lit ''/'') then d else d @ lit ''/'')"

definition is_child :: "str \<Rightarrow> str \<Rightarrow> bool" where
  "is_child d p =
     (let pre = dir_prefix d; name = drop (length pre) p
      in prefix pre p \<and> name \<noteq> [] \<and> \<not> str_contains (lit ''/'') name)"

text \<open>
  \<open>os.listdir(d)\<close>: the names of the files and directories directly inside \<open>d\<close>; it
  raises when \<open>d\<close> is not a directory.
\<close>

definition os_listdir :: "filesystem \<Rightarrow> str \<Rightarrow> exn + str list" where
  "os_listdir fs d =
     (if d \<notin> set (dirs fs) then Inl IOError
      else Inr (map (drop (length (dir_prefix d)))
                  (filter (is_child d) (map fst (files fs) @ dirs fs))))"

text \<open>\<open>with open(path, 'r', encoding='utf-8') as f: json.load(f)\<close>.\<close>

definition read_json :: "filesystem \<Rightarrow> str \<Rightarrow> exn + UserMemory" where
  "read_json fs p =
     (if p \<in> set (dirs fs) then Inl IOError
      else case map_of (files fs) p of
             None \<Rightarrow> Inl IOError
           | Some (Parsed m) \<Rightarrow> Inr m
           | Some (Corrupt e) \<Rightarrow> Inl e)"

fun fs_put :: "str \<Rightarrow> file_content \<Rightarrow> (str \<times> file_content) list \<Rightarrow> (str \<times> file_content) list" where
  "fs_put p f [] = [(p, f)]"
| "fs_put p f ((q, g) # rest) = (if q = p then (p, f) # rest else (q, g) # fs_put p f rest)"

text \<open>
  \<open>with open(path, 'w', encoding='utf-8') as f: json.dump(memory, f, ...)\<close>: raises when
  the path is a directory or the directory that should hold it does not exist, and
  otherwise replaces the whole file. The other ways for the write to raise (a file name
  beyond the limit of the file system, a string that UTF-8 cannot encode, after which the
  file is left cut short) are outside the model. The statements on the answer pipeline
  and on the bound of the history therefore speak of a save that has returned or has
  raised, and conclude nothing from a raise about the store.
\<close>

definition write_json :: "filesystem \<Rightarrow> str \<Rightarrow> UserMemory \<Rightarrow> exn + filesystem" where
  "write_json fs p m =
     (if p \<in> set (dirs fs) \<or> \<not> list_ex (\<lambda>d. is_child d p) (dirs fs) then Inl IOError
      else Inr (fs\<lparr>files := fs_put p (Parsed m) (files fs)\<rparr>))"

section \<open>Configuration (config.py)\<close>

definition MEMORY_PATH :: str where
  "MEMORY_PATH = lit ''memory/users''"

text \<open>
  \<open>MAX_CONVERSATION_HISTORY = int(os.getenv("MAX_CONVERSATION_HISTORY", "10"))\<close> is any
  Python integer; the operations take it as the argument \<open>mx\<close>. This is its default.
\<close>

definition MAX_CONVERSATION_HISTORY :: int where
  "MAX_CONVERSATION_HISTORY = 10"

section \<open>The conversation store (src/memory\_manager.py)\<close>

record MemoryManager =
  memory_path :: str

text \<open>
  \<open>os.makedirs(path, exist_ok=True)\<close> as \<open>_ensure_memory_directory\<close> uses it, on a path that does not
  exist yet: the empty path is refused; intermediate directories are not recorded.
\<close>

definition os_makedirs :: "filesystem \<Rightarrow> str \<Rightarrow> exn + filesystem" where
  "os_makedirs fs p = (if p = [] then Inl IOError else Inr (fs\<lparr>dirs := p # dirs fs\<rparr>))"

definition ensure_memory_directory :: "MemoryManager \<Rightarrow> filesystem \<Rightarrow> exn + filesystem" where
  "ensure_memory_directory mm fs =
     (if \<not> os_path_exists fs (memory_path mm) then os_makedirs fs (memory_path mm)
      else Inr fs)"

definition MemoryManager_init :: "str \<Rightarrow> filesystem \<Rightarrow> exn + MemoryManager \<times> filesystem" where
  "MemoryManager_init path fs =
     (let mm = \<lparr>memory_path = path\<rparr>
      in case ensure_memory_directory mm fs of
           Inl e \<Rightarrow> Inl e
         | Inr fs' \<Rightarrow> Inr (mm, fs'))"

text \<open>The test of the generator in \<open>_get_user_file_path\<close>: \<open>c.isalnum() or c in "-_"\<close>.\<close>

definition safe_char :: "unicode \<Rightarrow> codepoint \<Rightarrow> bool" where
  "safe_char U c = (isalnum U c \<or> c \<in> set (lit ''-_''))"

definition get_user_file_path :: "unicode \<Rightarrow> MemoryManager \<Rightarrow> str \<Rightarrow> str" where
  "get_user_file_path U mm uid =
     (let safe_user_id = filter (safe_char U) uid
      in os_path_join (memory_path mm) (safe_user_id @ lit ''.json''))"

text \<open>\<open>now\<close> is the value of \<open>datetime.utcnow().isoformat()\<close> read by the call.\<close>

definition create_default_memory :: "str \<Rightarrow> str \<Rightarrow> UserMemory" where
  "create_default_memory now uid =
     \<lparr>user_id = uid,
      created_at = now,
      conversations = [],
      preferences = [lit ''name'' \<mapsto> JStr uid,
                     lit ''known_conditions'' \<mapsto> JList [],
                     lit ''allergies'' \<mapsto> JList []]\<rparr>"

definition get_user_memory ::
  "unicode \<Rightarrow> MemoryManager \<Rightarrow> filesystem \<Rightarrow> str \<Rightarrow> str \<Rightarrow> exn + UserMemory" where
  "get_user_memory U mm fs now uid =
     (let file_path = get_user_file_path U mm uid
      in if os_path_exists fs file_path then
           (case read_json fs file_path of
              Inr m \<Rightarrow> Inr m
            | Inl e \<Rightarrow>
                if e = JSONDecodeError \<or> e = IOError then Inr (create_default_memory now uid)
                else Inl e)
         else Inr (create_default_memory now uid))"

text \<open>
  \<open>save_conversation\<close> reads the clock twice: \<open>now0\<close> for a default memory, \<open>now1\<close> for
  the entry. \<open>metadata or {}\<close> turns \<open>None\<close> into the empty dictionary.
\<close>

definition save_conversation ::
  "unicode \<Rightarrow> int \<Rightarrow> MemoryManager \<Rightarrow> filesystem \<Rightarrow> str \<Rightarrow> str \<Rightarrow>
   str \<Rightarrow> str \<Rightarrow> str \<Rightarrow> dict option \<Rightarrow> exn + filesystem" where
  "save_conversation U mx mm fs now0 now1 uid umsg bresp md =
     (case get_user_memory U mm fs now0 uid of
        Inl e \<Rightarrow> Inl e
      | Inr memory \<Rightarrow>
          (let conversation_entry =
                 \<lparr>timestamp = now1, user_message = umsg, bot_response = bresp,
                  metadata = (case md of None \<Rightarrow> Map.empty | Some d \<Rightarrow> d)\<rparr>;
               appended = conversations memory @ [conversation_entry];
               trimmed = (if int (length appended) > mx then py_slice_from (- mx) appended
                          else appended)
           in write_json fs (get_user_file_path U mm uid)
                (memory\<lparr>conversations := trimmed\<rparr>)))"

definition get_conversation_history ::
  "unicode \<Rightarrow> MemoryManager \<Rightarrow> filesystem \<Rightarrow> str \<Rightarrow> str \<Rightarrow> exn + ConversationTurn list" where
  "get_conversation_history U mm fs now uid =
     (case get_user_memory U mm fs now uid of
        Inl e \<Rightarrow> Inl e
      | Inr memory \<Rightarrow> Inr (conversations memory))"

fun store_lines :: "ConversationTurn list \<Rightarrow> str list" where
  "store_lines [] = []"
| "store_lines (conv # rest) =
     (lit ''User: '' @ user_message conv)
     # (if length (bot_response conv) > 200
        then lit ''Assistant: '' @ take 200 (bot_response conv) @ lit ''...''
        else lit ''Assistant: '' @ bot_response conv)
     # store_lines rest"

definition get_formatted_history ::
  "unicode \<Rightarrow> MemoryManager \<Rightarrow> filesystem \<Rightarrow> str \<Rightarrow> str \<Rightarrow> int \<Rightarrow> exn + str" where
  "get_formatted_history U mm fs now uid max_turns =
     (case get_conversation_history U mm fs now uid of
        Inl e \<Rightarrow> Inl e
      | Inr convs \<Rightarrow>
          if convs = [] then Inr []
          else Inr (str_join (lit ''\<newline>'') (store_lines (py_slice_from (- max_turns) convs))))"

definition update_user_preferences ::
  "unicode \<Rightarrow> MemoryManager \<Rightarrow> filesystem \<Rightarrow> str \<Rightarrow> str \<Rightarrow> dict \<Rightarrow> exn + filesystem" where
  "update_user_preferences U mm fs now uid prefs =
     (case get_user_memory U mm fs now uid of
        Inl e \<Rightarrow> Inl e
      | Inr memory \<Rightarrow>
          write_json fs (get_user_file_path U mm uid)
            (memory\<lparr>preferences := preferences memory ++ prefs\<rparr>))"

definition get_user_preferences ::
  "unicode \<Rightarrow> MemoryManager \<Rightarrow> filesystem \<Rightarrow> str \<Rightarrow> str \<Rightarrow> exn + dict" where
  "get_user_preferences U mm fs now uid =
     (case get_user_memory U mm fs now uid of
        Inl e \<Rightarrow> Inl e
      | Inr memory \<Rightarrow> Inr (preferences memory))"

definition clear_user_memory ::
  "unicode \<Rightarrow> MemoryManager \<Rightarrow> filesystem \<Rightarrow> str \<Rightarrow> str \<Rightarrow> exn + filesystem" where
  "clear_user_memory U mm fs now uid =
     write_json fs (get_user_file_path U mm uid) (create_default_memory now uid)"

definition list_users :: "MemoryManager \<Rightarrow> filesystem \<Rightarrow> exn + str list" where
  "list_users mm fs =
     (if \<not> os_path_exists fs (memory_path mm) then Inr []
      else case os_listdir fs (memory_path mm) of
             Inl e \<Rightarrow> Inl e
           | Inr names \<Rightarrow>
               Inr (map (\<lambda>filename. str_replace (lit ''.json'') [] filename)
                      (filter (\<lambda>filename. endswith filename (lit ''.json'')) names)))"

section \<open>Configuration constants of the answer pipeline (config.py)\<close>

definition RETRIEVER_K :: int where
  "RETRIEVER_K = 5"

text \<open>The disclaimer opens with U+26A0 U+FE0F (the warning sign) after a newline.\<close>

definition MEDICAL_DISCLAIMER :: str where
  "MEDICAL_DISCLAIMER =
     lit ''\<newline>'' @ [9888, 65039] @ lit '' **IMPORTANT DISCLAIMER**\<newline>''
     @ lit ''I am an AI assistant, NOT a doctor. The information provided is for educational purposes only and should not be considered medical advice. Always consult with a qualified healthcare professional for diagnosis and treatment. If you are experiencing a medical emergency, please call your local emergency services immediately.\<newline>''"

definition SEVERITY_KEYWORDS :: "str list" where
  "SEVERITY_KEYWORDS =
     [lit ''chest pain'', lit ''difficulty breathing'', lit ''severe headache'', lit ''stroke'',
      lit ''heart attack'', lit ''unconscious'', lit ''high fever'', lit ''severe bleeding'',
      lit ''allergic reaction'', lit ''anaphylaxis'', lit ''sudden numbness'',
      lit ''slurred speech'']"

section \<open>The knowledge index as the pipeline uses it (src/vector\_store.py)\<close>

record Document =
  page_content :: str
  doc_metadata :: dict

text \<open>
  A vector database is what \<open>similarity_search(query, k=k)\<close> does on it: a list of
  documents, or an exception. \<open>None\<close> is the database that was never initialised.
\<close>

type_synonym FAISS = "(str \<Rightarrow> int \<Rightarrow> exn + Document list) option"


section \<open>The answer pipeline (src/rag\_chain.py)\<close>

text \<open>
  The dictionary handed to the chain, with its keys \<open>context\<close> (the field
  \<open>context_block\<close>), \<open>question\<close> and \<open>conversation_history\<close>.
\<close>

record chain_input =
  context_block :: str
  question :: str
  conversation_history :: str

text \<open>
  The generation chain (prompt, model, output parser) is what \<open>chain.invoke\<close> does on an
  input: \<open>Inr text\<close> when it returns, \<open>Inl msg\<close> when it raises an exception \<open>e\<close> with
  \<open>str(e) = msg\<close>.
\<close>

record MedicalRAGChain =
  chain :: "chain_input \<Rightarrow> str + str"
  vector_db :: FAISS
  memory_manager :: MemoryManager
  retriever_k :: int

text \<open>The calls a query makes to the knowledge index and to the generation chain.\<close>

datatype call = Search str int | Generate chain_input



fun chat_lines :: "ConversationTurn list \<Rightarrow> str list" where
  "chat_lines [] = []"
| "chat_lines (conv # rest) =
     (lit ''User: '' @ user_message conv)
     # (lit ''Assistant: '' @ take 200 (bot_response conv) @ lit ''...'')
     # chat_lines rest"

definition format_chat_history ::
  "unicode \<Rightarrow> MedicalRAGChain \<Rightarrow> filesystem \<Rightarrow> str \<Rightarrow> str \<Rightarrow> exn + str" where
  "format_chat_history U rc fs now uid =
     (case get_conversation_history U (memory_manager rc) fs now uid of
        Inl e \<Rightarrow> Inl e
      | Inr convs \<Rightarrow>
          if convs = [] then Inr []
          else Inr (str_join (lit ''\<newline>'') (chat_lines (py_slice_from (- 10) convs))))"

fun keyword_loop :: "str list \<Rightarrow> str \<Rightarrow> bool" where
  "keyword_loop [] query_lower = False"
| "keyword_loop (keyword # rest) query_lower =
     (if str_contains keyword query_lower then True else keyword_loop rest query_lower)"

definition check_severity :: "unicode \<Rightarrow> str \<Rightarrow> bool" where
  "check_severity U query = keyword_loop SEVERITY_KEYWORDS (lower U query)"




section \<open>Per-query processing (medical\_chatbot.py)\<close>




section \<open>Notions used in the statements\<close>

text \<open>
  The severity classifier as the specification words it: some configured phrase occurs in
  the query as a contiguous substring, both compared in lower case.
\<close>

definition is_severe_spec :: "unicode \<Rightarrow> str \<Rightarrow> bool" where
  "is_severe_spec U query =
     (\<exists>phrase \<in> set SEVERITY_KEYWORDS. sublist (lower U phrase) (lower U query))"

text \<open>The last \<open>n\<close> entries of a sequence (all of it when it is shorter).\<close>

definition last_n :: "nat \<Rightarrow> 'a list \<Rightarrow> 'a list" where
  "last_n n xs = drop (length xs - n) xs"

text \<open>The entry \<open>save_conversation\<close> builds, and its trimming step.\<close>

definition new_turn :: "str \<Rightarrow> str \<Rightarrow> str \<Rightarrow> dict option \<Rightarrow> ConversationTurn" where
  "new_turn now1 umsg bresp md =
     \<lparr>timestamp = now1, user_message = umsg, bot_response = bresp,
      metadata = (case md of None \<Rightarrow> Map.empty | Some d \<Rightarrow> d)\<rparr>"

definition trim_to_cap :: "int \<Rightarrow> 'a list \<Rightarrow> 'a list" where
  "trim_to_cap mx xs = (if int (length xs) > mx then py_slice_from (- mx) xs else xs)"

text \<open>The invariant of the store: every stored record holds at most \<open>mx\<close> turns.\<close>

definition store_bounded :: "int \<Rightarrow> filesystem \<Rightarrow> bool" where
  "store_bounded mx fs =
     list_all (\<lambda>(p, f). case f of Parsed m \<Rightarrow> int (length (conversations m)) \<le> mx
                                 | Corrupt e \<Rightarrow> True) (files fs)"

text \<open>
  The storage of a user is in working order: the memory directory exists, the user's path
  is not a directory, and the user's file, if any, is not one whose reading raises
  \<open>UnicodeDecodeError\<close>.
\<close>

definition store_ready :: "unicode \<Rightarrow> MemoryManager \<Rightarrow> filesystem \<Rightarrow> str \<Rightarrow> bool" where
  "store_ready U mm fs uid =
     (memory_path mm \<in> set (dirs fs)
      \<and> get_user_file_path U mm uid \<notin> set (dirs fs)
      \<and> map_of (files fs) (get_user_file_path U mm uid) \<noteq> Some (Corrupt UnicodeDecodeError))"



text \<open>A name the store itself gives: safe characters followed by \<open>.json\<close>.\<close>

definition store_name :: "unicode \<Rightarrow> str \<Rightarrow> bool" where
  "store_name U name =
     (endswith name (lit ''.json'') \<and> list_all (safe_char U) (take (length name - 5) name))"

text \<open>The memory directory exists and every entry in it has such a name.\<close>

definition store_owned :: "unicode \<Rightarrow> MemoryManager \<Rightarrow> filesystem \<Rightarrow> bool" where
  "store_owned U mm fs =
     (case os_listdir fs (memory_path mm) of
        Inl e \<Rightarrow> False
      | Inr names \<Rightarrow> list_all (store_name U) names)"



section \<open>Example data\<close>

definition ex_mm :: MemoryManager where
  "ex_mm = \<lparr>memory_path = MEMORY_PATH\<rparr>"

definition ex_turn :: "string \<Rightarrow> string \<Rightarrow> ConversationTurn" where
  "ex_turn q a = \<lparr>timestamp = lit ''2024-01-01T00:00:00'', user_message = lit q,
                  bot_response = lit a, metadata = Map.empty\<rparr>"

definition ex_memory :: "ConversationTurn list \<Rightarrow> UserMemory" where
  "ex_memory convs =
     \<lparr>user_id = lit ''alice'', created_at = lit ''2024-01-01T00:00:00'',
      conversations = convs, preferences = [lit ''name'' \<mapsto> JStr (lit ''alice'')]\<rparr>"

text \<open>A file system holding one file, that of user \<open>alice\<close>, in the memory directory.\<close>

definition ex_fs :: "file_content \<Rightarrow> filesystem" where
  "ex_fs f = \<lparr>files = [(lit ''memory/users/alice.json'', f)], dirs = [MEMORY_PATH]\<rparr>"


text \<open>
  A pipeline whose generation chain raises on every input and whose index is empty, and a
  chatbot for user \<open>alice\<close> built on it.
\<close>

definition ex_rag :: MedicalRAGChain where
  "ex_rag = \<lparr>chain = (\<lambda>inp. Inl (lit ''timeout'')), vector_db = Some (\<lambda>q k. Inr []),
             memory_manager = ex_mm, retriever_k = RETRIEVER_K\<rparr>"



definition ex_nofile :: filesystem where
  "ex_nofile = \<lparr>files = [], dirs = [MEMORY_PATH]\<rparr>"

definition ex_foreign :: filesystem where
  "ex_foreign = \<lparr>files = [(lit ''memory/users/a.b.json'', Parsed (ex_memory []))],
                 dirs = [MEMORY_PATH]\<rparr>"

text \<open>What an append for the user id \<open>a.b\<close> makes of the last one.\<close>

definition ex_foreign_after :: filesystem where
  "ex_foreign_after =
     \<lparr>files = [(lit ''memory/users/a.b.json'', Parsed (ex_memory [])),
               (lit ''memory/users/ab.json'',
                Parsed ((create_default_memory (lit ''t0'') (lit ''a.b''))
                          \<lparr>conversations := [new_turn (lit ''t1'') (lit ''q'') (lit ''a'') None]\<rparr>))],
      dirs = [MEMORY_PATH]\<rparr>"

section \<open>Strings, paths and files: basic facts\<close>

lemma str_contains_sublist: "str_contains needle hay = sublist needle hay"
  by (induction hay) (auto simp: sublist_Cons_right)

lemma safe_char_not_slash: "\<not> safe_char U 47"
  by (simp add: safe_char_def isalnum_def lit_def)

lemma safe_char_not_dot: "\<not> safe_char U 46"
  by (simp add: safe_char_def isalnum_def lit_def)

lemma lit_json: "lit ''.json'' = [46, 106, 115, 111, 110]"
  by (simp add: lit_def)

lemma lit_slash: "lit ''/'' = [47]"
  by (simp add: lit_def)

lemma lit_newline: "lit ''\<newline>'' = [10]"
  by (simp add: lit_def)

lemma os_path_join_child:
  assumes "b \<noteq> []" "hd b \<noteq> 47"
  shows "os_path_join a b = dir_prefix a @ b"
  using assms by (cases b) (auto simp: os_path_join_def dir_prefix_def startswith_def lit_slash)

lemma get_user_file_path_eq:
  "get_user_file_path U mm uid = dir_prefix (memory_path mm) @ filter (safe_char U) uid @ lit ''.json''"
proof -
  let ?b = "filter (safe_char U) uid @ lit ''.json''"
  have "?b \<noteq> []" by (simp add: lit_json)
  moreover have "hd ?b \<noteq> 47"
  proof (cases "filter (safe_char U) uid")
    case Nil then show ?thesis by (simp add: lit_json)
  next
    case (Cons c cs)
    then have "c \<in> set (filter (safe_char U) uid)" by simp
    then have "safe_char U c" by simp
    then have "c \<noteq> 47" using safe_char_not_slash by auto
    with Cons show ?thesis by simp
  qed
  ultimately have "os_path_join (memory_path mm) ?b = dir_prefix (memory_path mm) @ ?b"
    by (rule os_path_join_child)
  then show ?thesis
    by (simp add: get_user_file_path_def)
qed

lemma filename_no_slash: "47 \<notin> set (filter (safe_char U) uid @ lit ''.json'')"
  using safe_char_not_slash by (auto simp: lit_json)

lemma is_child_user_file: "is_child (memory_path mm) (get_user_file_path U mm uid)"
proof -
  have "\<not> sublist [47] (filter (safe_char U) uid @ lit ''.json'')"
  proof
    assume "sublist [47] (filter (safe_char U) uid @ lit ''.json'')"
    then obtain ps ss where "filter (safe_char U) uid @ lit ''.json'' = ps @ [47] @ ss"
      unfolding sublist_def by blast
    then have "set (filter (safe_char U) uid @ lit ''.json'') = set (ps @ [47] @ ss)"
      by (rule arg_cong)
    then have "47 \<in> set (filter (safe_char U) uid @ lit ''.json'')"
      by (simp only: set_append list.set) blast
    then show False using filename_no_slash by blast
  qed
  then show ?thesis
    by (simp add: is_child_def get_user_file_path_eq str_contains_sublist lit_slash Let_def lit_json)
qed

lemma map_of_fs_put: "map_of (fs_put p f l) = (map_of l)(p \<mapsto> f)"
  by (induction l) (auto simp: fun_eq_iff)

lemma keys_fs_put: "fst ` set (fs_put p f l) = insert p (fst ` set l)"
  by (simp add: dom_map_of_conv_image_fst[symmetric] map_of_fs_put)

lemma write_json_Inr:
  assumes "write_json fs p m = Inr fs'"
  shows "dirs fs' = dirs fs" "map_of (files fs') = (map_of (files fs))(p \<mapsto> Parsed m)"
        "p \<notin> set (dirs fs)" "files fs' = fs_put p (Parsed m) (files fs)"
  using assms by (auto simp: write_json_def map_of_fs_put split: if_splits)

lemma write_json_ok:
  assumes "p \<notin> set (dirs fs)" "d \<in> set (dirs fs)" "is_child d p"
  shows "write_json fs p m = Inr (fs\<lparr>files := fs_put p (Parsed m) (files fs)\<rparr>)"
  using assms by (auto simp: write_json_def list_ex_iff)

lemma read_after_write:
  assumes "write_json fs p m = Inr fs'"
  shows "read_json fs' p = Inr m"
  using write_json_Inr[OF assms] by (simp add: read_json_def)

lemma user_path_nonempty: "get_user_file_path U mm uid \<noteq> []"
  by (simp add: get_user_file_path_eq lit_json)

lemma get_user_memory_after_write:
  assumes "write_json fs (get_user_file_path U mm uid) m = Inr fs'"
  shows "get_user_memory U mm fs' now uid = Inr m"
  using write_json_Inr[OF assms] read_after_write[OF assms]
  by (simp add: get_user_memory_def os_path_exists_def user_path_nonempty)

section \<open>Reading and writing a user's record\<close>

lemma MemoryManager_init_creates_directory:
  assumes "\<not> os_path_exists fs path" and "MemoryManager_init path fs = Inr (mm, fs')"
  shows "memory_path mm = path \<and> path \<noteq> [] \<and> path \<in> set (dirs fs') \<and> files fs' = files fs"
  using assms
  by (auto simp: MemoryManager_init_def ensure_memory_directory_def os_makedirs_def Let_def
           split: if_splits)

lemma trim_last_n:
  assumes "0 \<le> mx"
  shows "(if int (length xs) > mx then py_slice_from (- mx) xs else xs)
         = (if mx = 0 then xs else last_n (nat mx) xs)"
  using assms by (auto simp: py_slice_from_def last_n_def Let_def max_def nat_diff_distrib')

lemma get_user_memory_ready:
  assumes "store_ready U mm fs uid"
  shows "\<exists>m. get_user_memory U mm fs now uid = Inr m"
proof (cases "map_of (files fs) (get_user_file_path U mm uid)")
  case None
  then show ?thesis using assms
    by (simp add: get_user_memory_def store_ready_def os_path_exists_def Let_def)
next
  case (Some f)
  show ?thesis
  proof (cases f)
    case (Parsed m)
    with Some assms show ?thesis
      by (simp add: get_user_memory_def store_ready_def os_path_exists_def read_json_def Let_def)
  next
    case (Corrupt e)
    with Some assms show ?thesis
      by (cases e) (simp_all add: get_user_memory_def store_ready_def os_path_exists_def read_json_def Let_def)
  qed
qed

lemma write_user_file_ready:
  assumes "store_ready U mm fs uid"
  shows "write_json fs (get_user_file_path U mm uid) m
         = Inr (fs\<lparr>files := fs_put (get_user_file_path U mm uid) (Parsed m) (files fs)\<rparr>)"
  using assms is_child_user_file[of mm U uid]
  by (intro write_json_ok[where d = "memory_path mm"]) (simp_all add: store_ready_def)

lemma get_user_memory_bounded:
  assumes "store_bounded mx fs" "0 \<le> mx" "get_user_memory U mm fs now uid = Inr m"
  shows "int (length (conversations m)) \<le> mx"
proof (cases "get_user_memory U mm fs now uid = Inr (create_default_memory now uid)")
  case True
  with assms show ?thesis by (auto simp: create_default_memory_def)
next
  case False
  with assms(3) have "map_of (files fs) (get_user_file_path U mm uid) = Some (Parsed m)"
    by (auto simp: get_user_memory_def read_json_def Let_def
             split: if_splits option.splits file_content.splits sum.splits)
  then have "(get_user_file_path U mm uid, Parsed m) \<in> set (files fs)"
    by (rule map_of_SomeD)
  with assms(1) show ?thesis
    by (auto simp: store_bounded_def list_all_iff)
qed

lemma store_bounded_write:
  assumes "store_bounded mx fs" "write_json fs p m = Inr fs'" "int (length (conversations m)) \<le> mx"
  shows "store_bounded mx fs'"
proof -
  have put: "list_all P (fs_put q f l)" if "list_all P l" "P (q, f)" for P q f and l :: "(str \<times> file_content) list"
    using that by (induction l) auto
  from assms(2) have "files fs' = fs_put p (Parsed m) (files fs)"
    by (rule write_json_Inr)
  with assms(1,3) show ?thesis
    by (auto simp: store_bounded_def intro!: put)
qed

lemma conversations_now_irrelevant:
  assumes "get_user_memory U mm fs now uid = Inr m"
  shows "\<exists>m'. get_user_memory U mm fs now' uid = Inr m' \<and> conversations m' = conversations m
              \<and> preferences m' = preferences m"
  using assms
  by (auto simp: get_user_memory_def Let_def create_default_memory_def
           split: if_splits sum.splits)

lemma history_now_irrelevant:
  "get_conversation_history U mm fs now uid = Inr h \<Longrightarrow>
   get_conversation_history U mm fs now' uid = Inr h"
  using conversations_now_irrelevant[of U mm fs now uid _ now']
  by (auto simp: get_conversation_history_def split: sum.splits)

lemma trim_to_cap_last_n:
  "0 \<le> mx \<Longrightarrow> trim_to_cap mx xs = (if mx = 0 then xs else last_n (nat mx) xs)"
  unfolding trim_to_cap_def by (rule trim_last_n)

lemma save_conversation_alt:
  "save_conversation U mx mm fs now0 now1 uid um br md =
     (case get_user_memory U mm fs now0 uid of
        Inl e \<Rightarrow> Inl e
      | Inr m \<Rightarrow> write_json fs (get_user_file_path U mm uid)
                  (m\<lparr>conversations := trim_to_cap mx (conversations m @ [new_turn now1 um br md])\<rparr>))"
  unfolding save_conversation_def new_turn_def trim_to_cap_def Let_def ..

lemma save_conversation_Inr:
  assumes "save_conversation U mx mm fs now0 now1 uid um br md = Inr fs'"
  obtains m where "get_user_memory U mm fs now0 uid = Inr m"
    and "write_json fs (get_user_file_path U mm uid)
           (m\<lparr>conversations := trim_to_cap mx (conversations m @ [new_turn now1 um br md])\<rparr>)
         = Inr fs'"
  using assms unfolding save_conversation_alt by (cases "get_user_memory U mm fs now0 uid") auto

lemma history_after_save:
  assumes mx: "0 \<le> mx"
    and h: "get_conversation_history U mm fs now uid = Inr h"
    and s: "save_conversation U mx mm fs now0 now1 uid um br md = Inr fs'"
  shows "get_conversation_history U mm fs' now' uid
         = Inr (if mx = 0 then h @ [new_turn now1 um br md]
                else last_n (nat mx) (h @ [new_turn now1 um br md]))"
proof -
  from s obtain m where m: "get_user_memory U mm fs now0 uid = Inr m"
    and w: "write_json fs (get_user_file_path U mm uid)
           (m\<lparr>conversations := trim_to_cap mx (conversations m @ [new_turn now1 um br md])\<rparr>)
         = Inr fs'"
    by (rule save_conversation_Inr)
  from h have "get_conversation_history U mm fs now0 uid = Inr h"
    by (rule history_now_irrelevant)
  with m have hm: "conversations m = h"
    by (simp add: get_conversation_history_def)
  from w have "get_user_memory U mm fs' now' uid
      = Inr (m\<lparr>conversations := trim_to_cap mx (conversations m @ [new_turn now1 um br md])\<rparr>)"
    by (rule get_user_memory_after_write)
  then show ?thesis
    by (simp add: get_conversation_history_def hm trim_to_cap_last_n[OF mx])
qed

lemma last_n_snoc:
  assumes "0 < n"
  shows "last (last_n n (xs @ [x])) = x" "length (last_n n (xs @ [x])) \<le> n"
  using assms by (auto simp: last_n_def)

lemma save_conversation_ready:
  assumes "store_ready U mm fs uid"
  shows "\<exists>fs'. save_conversation U mx mm fs now0 now1 uid um br md = Inr fs'"
proof -
  from assms obtain m where "get_user_memory U mm fs now0 uid = Inr m"
    using get_user_memory_ready by blast
  then show ?thesis
    using write_user_file_ready[OF assms]
    by (simp add: save_conversation_alt)
qed

lemma store_bounded_save:
  assumes "1 \<le> mx" "store_bounded mx fs"
    "save_conversation U mx mm fs now0 now1 uid um br md = Inr fs'"
  shows "store_bounded mx fs'"
proof -
  from assms(3) obtain m where m: "get_user_memory U mm fs now0 uid = Inr m"
    and w: "write_json fs (get_user_file_path U mm uid)
           (m\<lparr>conversations := trim_to_cap mx (conversations m @ [new_turn now1 um br md])\<rparr>)
         = Inr fs'"
    by (rule save_conversation_Inr)
  from assms(1) have "0 < nat mx" "0 \<le> mx" "mx \<noteq> 0" by simp_all
  then have "int (length (trim_to_cap mx (conversations m @ [new_turn now1 um br md]))) \<le> mx"
    using last_n_snoc(2)[of "nat mx" "conversations m" "new_turn now1 um br md"]
    by (simp add: trim_to_cap_last_n)
  then show ?thesis
    using store_bounded_write[OF assms(2) w] by simp
qed

lemma store_bounded_update:
  assumes "0 \<le> mx" "store_bounded mx fs"
    "update_user_preferences U mm fs now uid patch = Inr fs'"
  shows "store_bounded mx fs'"
proof -
  from assms(3) obtain m where m: "get_user_memory U mm fs now uid = Inr m"
    and w: "write_json fs (get_user_file_path U mm uid)
              (m\<lparr>preferences := preferences m ++ patch\<rparr>) = Inr fs'"
    by (auto simp: update_user_preferences_def split: sum.splits)
  from get_user_memory_bounded[OF assms(2,1) m]
  show ?thesis using store_bounded_write[OF assms(2) w] by simp
qed

lemma store_bounded_clear:
  assumes "0 \<le> mx" "store_bounded mx fs" "clear_user_memory U mm fs now uid = Inr fs'"
  shows "store_bounded mx fs'"
  using assms store_bounded_write[of mx fs "get_user_file_path U mm uid" "create_default_memory now uid" fs']
  by (simp add: clear_user_memory_def create_default_memory_def)

subsection \<open>The example data\<close>

lemma ex_path: "get_user_file_path ascii_only ex_mm (lit ''alice'') = lit ''memory/users/alice.json''"
  by (simp add: get_user_file_path_eq ex_mm_def MEMORY_PATH_def dir_prefix_def endswith_def
        safe_char_def isalnum_def lit_def)

lemma ex_ready:
  "f \<noteq> Corrupt UnicodeDecodeError \<Longrightarrow> store_ready ascii_only ex_mm (ex_fs f) (lit ''alice'')"
  by (simp add: store_ready_def ex_path) (simp add: ex_fs_def ex_mm_def MEMORY_PATH_def lit_def)

lemma ex_exists:
  "os_path_exists (ex_fs f) (get_user_file_path ascii_only ex_mm (lit ''alice''))"
  by (simp add: os_path_exists_def ex_path) (simp add: ex_fs_def lit_def)

lemma ex_read:
  "read_json (ex_fs f) (get_user_file_path ascii_only ex_mm (lit ''alice''))
   = (case f of Parsed m \<Rightarrow> Inr m | Corrupt e \<Rightarrow> Inl e)"
  by (simp add: read_json_def ex_path) (simp add: ex_fs_def lit_def MEMORY_PATH_def)

lemma ex_path_bob:
  "get_user_file_path ascii_only ex_mm (lit ''bob'') = lit ''memory/users/bob.json''"
  by (simp add: get_user_file_path_eq ex_mm_def MEMORY_PATH_def dir_prefix_def endswith_def
        safe_char_def isalnum_def lit_def)

lemma ex_missing_bob:
  "\<not> os_path_exists (ex_fs f) (get_user_file_path ascii_only ex_mm (lit ''bob''))"
  by (simp add: os_path_exists_def ex_path_bob) (simp add: ex_fs_def lit_def MEMORY_PATH_def)

lemma ex_history:
  "get_conversation_history ascii_only ex_mm (ex_fs (Parsed m)) now (lit ''alice'') = Inr (conversations m)"
  by (simp add: get_conversation_history_def get_user_memory_def ex_path Let_def
        os_path_exists_def read_json_def) (simp add: ex_fs_def MEMORY_PATH_def lit_def)

lemma ex_memory_load:
  "get_user_memory ascii_only ex_mm (ex_fs (Parsed m)) now (lit ''alice'') = Inr m"
  by (simp add: get_user_memory_def ex_path Let_def os_path_exists_def read_json_def)
     (simp add: ex_fs_def MEMORY_PATH_def lit_def)



subsection \<open>What the operations read and write\<close>


lemma default_memory_fields:
  "conversations (create_default_memory now uid) = []"
  "preferences (create_default_memory now uid) (lit ''name'') = Some (JStr uid)"
  "preferences (create_default_memory now uid) (lit ''known_conditions'') = Some (JList [])"
  "preferences (create_default_memory now uid) (lit ''allergies'') = Some (JList [])"
  "dom (preferences (create_default_memory now uid))
     = {lit ''name'', lit ''known_conditions'', lit ''allergies''}"
  by (auto simp: create_default_memory_def lit_def)

lemma get_user_memory_missing:
  "\<not> os_path_exists fs (get_user_file_path U mm uid) \<Longrightarrow>
   get_user_memory U mm fs now uid = Inr (create_default_memory now uid)"
  by (simp add: get_user_memory_def)

lemma get_user_memory_caught:
  "os_path_exists fs (get_user_file_path U mm uid) \<Longrightarrow>
   read_json fs (get_user_file_path U mm uid) = Inl e \<Longrightarrow> e = JSONDecodeError \<or> e = IOError \<Longrightarrow>
   get_user_memory U mm fs now uid = Inr (create_default_memory now uid)"
  by (auto simp: get_user_memory_def)

lemma get_user_memory_uncaught:
  "os_path_exists fs (get_user_file_path U mm uid) \<Longrightarrow>
   read_json fs (get_user_file_path U mm uid) = Inl UnicodeDecodeError \<Longrightarrow>
   get_user_memory U mm fs now uid = Inl UnicodeDecodeError"
  by (auto simp: get_user_memory_def)



lemma unseen_load_same_shape_as_cleared:
  assumes "\<not> os_path_exists fs (get_user_file_path U mm uid)"
    and "clear_user_memory U mm fs now0 uid = Inr fs'"
    and "get_user_memory U mm fs now uid = Inr m"
    and "get_user_memory U mm fs' now' uid = Inr m'"
  shows "user_id m = user_id m' \<and> conversations m = conversations m'
         \<and> preferences m = preferences m'"
proof -
  from assms(1,3) have "m = create_default_memory now uid"
    by (simp add: get_user_memory_missing)
  moreover from assms(2) have "get_user_memory U mm fs' now' uid = Inr (create_default_memory now0 uid)"
    unfolding clear_user_memory_def by (rule get_user_memory_after_write)
  with assms(4) have "m' = create_default_memory now0 uid" by simp
  ultimately show ?thesis by (simp add: create_default_memory_def)
qed

subsection \<open>Listing the memory directory\<close>

lemma str_replace_stem:
  "46 \<notin> set s \<Longrightarrow> str_replace (lit ''.json'') [] (s @ lit ''.json'') = s"
proof (induction s)
  case Nil
  show ?case
    by (subst str_replace.simps, subst str_replace.simps) (simp add: lit_json)
next
  case (Cons c cs)
  then have "c \<noteq> 46" and ih: "str_replace (lit ''.json'') [] (cs @ lit ''.json'') = cs"
    by auto
  then show ?case
    by (subst str_replace.simps) (simp add: lit_json)
qed

lemma store_name_split:
  assumes "store_name U name"
  shows "name = take (length name - 5) name @ lit ''.json''"
    and "list_all (safe_char U) (take (length name - 5) name)"
proof -
  from assms have e: "endswith name (lit ''.json'')"
    and a: "list_all (safe_char U) (take (length name - 5) name)"
    by (simp_all add: store_name_def)
  have five: "length (lit ''.json'') = 5" by (simp add: lit_def)
  from e have "drop (length name - 5) name = lit ''.json''"
    unfolding endswith_def five by simp
  then have "take (length name - 5) name @ lit ''.json'' = name"
    by (metis append_take_drop_id)
  then show "name = take (length name - 5) name @ lit ''.json''" by simp
  from a show "list_all (safe_char U) (take (length name - 5) name)" .
qed

lemma store_name_replace:
  assumes "store_name U name"
  shows "list_all (safe_char U) (str_replace (lit ''.json'') [] name)"
proof -
  let ?s = "take (length name - 5) name"
  have safe: "list_all (safe_char U) ?s" and eq: "name = ?s @ lit ''.json''"
    using store_name_split[OF assms] by simp_all
  from safe have "46 \<notin> set ?s"
    using safe_char_not_dot by (auto simp: list_all_iff)
  then have "str_replace (lit ''.json'') [] (?s @ lit ''.json'') = ?s"
    by (rule str_replace_stem)
  with eq have "str_replace (lit ''.json'') [] name = ?s" by simp
  with safe show ?thesis by simp
qed

lemma store_name_stem: "store_name U (filter (safe_char U) uid @ lit ''.json'')"
  by (simp add: store_name_def endswith_def lit_json list_all_iff)

lemma os_listdir_Inr:
  assumes "d \<in> set (dirs fs)"
  shows "os_listdir fs d
         = Inr (map (drop (length (dir_prefix d))) (filter (is_child d) (map fst (files fs) @ dirs fs)))"
  using assms by (simp add: os_listdir_def)

lemma list_users_Inr:
  assumes "memory_path mm \<noteq> []" "memory_path mm \<in> set (dirs fs)"
  shows "list_users mm fs
         = Inr (map (str_replace (lit ''.json'') [])
                  (filter (\<lambda>filename. endswith filename (lit ''.json''))
                     (map (drop (length (dir_prefix (memory_path mm))))
                        (filter (is_child (memory_path mm)) (map fst (files fs) @ dirs fs)))))"
  using assms by (simp add: list_users_def os_path_exists_def os_listdir_def)

lemma listed_after_write:
  assumes "write_json fs p m = Inr fs'"
  shows "set (map (drop n) (filter (is_child d) (map fst (files fs') @ dirs fs')))
         = (if is_child d p then {drop n p} else {})
           \<union> set (map (drop n) (filter (is_child d) (map fst (files fs) @ dirs fs)))"
proof -
  from assms have f: "files fs' = fs_put p (Parsed m) (files fs)" and d: "dirs fs' = dirs fs"
    by (rule write_json_Inr)+
  have "set (map fst (files fs')) = insert p (set (map fst (files fs)))"
    unfolding f using keys_fs_put[of p "Parsed m" "files fs"] by simp
  then show ?thesis
    using d by auto
qed

lemma save_conversation_write:
  assumes "save_conversation U mx mm fs now0 now1 uid um br md = Inr fs'"
  shows "\<exists>m. write_json fs (get_user_file_path U mm uid) m = Inr fs'"
  using save_conversation_Inr[OF assms] by metis

lemma ex_owned: "store_owned ascii_only ex_mm (ex_fs f)"
  by (simp add: store_owned_def os_listdir_def ex_fs_def ex_mm_def MEMORY_PATH_def is_child_def
        dir_prefix_def endswith_def store_name_def safe_char_def isalnum_def lit_def Let_def)

lemma ex_unsafe_id: "\<not> list_all (safe_char ascii_only) (lit ''../bob'')"
  by (simp add: safe_char_def isalnum_def lit_def)

lemma ex_stem_bob: "filter (safe_char ascii_only) (lit ''../bob'') = lit ''bob''"
  by (simp add: safe_char_def isalnum_def lit_def)

lemma ex_ready_bob: "store_ready ascii_only ex_mm (ex_fs f) (lit ''../bob'')"
proof -
  have "get_user_file_path ascii_only ex_mm (lit ''../bob'') = lit ''memory/users/bob.json''"
    by (simp add: get_user_file_path_eq ex_stem_bob)
       (simp add: ex_mm_def MEMORY_PATH_def dir_prefix_def endswith_def lit_def)
  then show ?thesis
    by (simp add: store_ready_def) (simp add: ex_fs_def ex_mm_def MEMORY_PATH_def lit_def)
qed

lemma ex_dir: "memory_path ex_mm \<noteq> [] \<and> memory_path ex_mm \<in> set (dirs (ex_fs f))"
  by (simp add: ex_mm_def ex_fs_def MEMORY_PATH_def lit_def)

section \<open>The answer pipeline: basic facts\<close>

lemma chat_lines_eq_store_lines:
  "list_all (\<lambda>conv. length (bot_response conv) > 200) convs \<Longrightarrow> chat_lines convs = store_lines convs"
  by (induction convs) auto

lemma format_chat_history_agrees_when_all_long:
  assumes "get_conversation_history U (memory_manager rc) fs now uid = Inr convs"
    and "list_all (\<lambda>conv. length (bot_response conv) > 200) (py_slice_from (- 10) convs)"
  shows "format_chat_history U rc fs now uid = get_formatted_history U (memory_manager rc) fs now uid 10"
  using assms by (simp add: format_chat_history_def get_formatted_history_def chat_lines_eq_store_lines)




lemma disclaimer_nonempty: "MEDICAL_DISCLAIMER \<noteq> []"
  unfolding MEDICAL_DISCLAIMER_def lit_newline by simp





lemma trim_keeps_new_turn:
  assumes "0 \<le> mx"
  shows "\<exists>older. trim_to_cap mx (h @ [t]) = older @ [t]"
proof (cases "mx = 0")
  case True
  then show ?thesis by (simp add: trim_to_cap_last_n)
next
  case False
  with assms have "length (h @ [t]) - nat mx \<le> length h" by simp
  then have "last_n (nat mx) (h @ [t]) = drop (length (h @ [t]) - nat mx) h @ [t]"
    unfolding last_n_def by simp
  with False assms show ?thesis by (simp add: trim_to_cap_last_n)
qed

lemma save_conversation_persists_turn:
  assumes "0 \<le> mx" "store_ready U mm fs uid"
  shows "\<exists>fs' older. save_conversation U mx mm fs now0 now1 uid um br md = Inr fs'
           \<and> get_conversation_history U mm fs' now' uid = Inr (older @ [new_turn now1 um br md])"
proof -
  from assms(2) obtain m where m: "get_user_memory U mm fs now0 uid = Inr m"
    using get_user_memory_ready by blast
  let ?m' = "m\<lparr>conversations := trim_to_cap mx (conversations m @ [new_turn now1 um br md])\<rparr>"
  let ?fs' = "fs\<lparr>files := fs_put (get_user_file_path U mm uid) (Parsed ?m') (files fs)\<rparr>"
  have w: "write_json fs (get_user_file_path U mm uid) ?m' = Inr ?fs'"
    using assms(2) by (rule write_user_file_ready)
  with m have s: "save_conversation U mx mm fs now0 now1 uid um br md = Inr ?fs'"
    by (simp add: save_conversation_alt)
  from w have "get_user_memory U mm ?fs' now' uid = Inr ?m'"
    by (rule get_user_memory_after_write)
  then have g: "get_conversation_history U mm ?fs' now' uid
                = Inr (trim_to_cap mx (conversations m @ [new_turn now1 um br md]))"
    by (simp add: get_conversation_history_def)
  from trim_keeps_new_turn[OF assms(1), of "conversations m" "new_turn now1 um br md"] obtain older where
    "trim_to_cap mx (conversations m @ [new_turn now1 um br md]) = older @ [new_turn now1 um br md]"
    by (rule exE)
  with g have "get_conversation_history U mm ?fs' now' uid = Inr (older @ [new_turn now1 um br md])"
    by simp
  with s show ?thesis by (intro exI[of _ ?fs'] exI[of _ older] conjI)
qed


lemma format_chat_history_ready:
  assumes "get_user_memory U (memory_manager rc) fs now uid = Inr m"
  shows "\<exists>hist. format_chat_history U rc fs now uid = Inr hist"
  using assms by (simp add: format_chat_history_def get_conversation_history_def)








section \<open>What a save leaves, whether it returns or raises\<close>




lemma append_keeps_last_turns_when_cap_positive:
  assumes "1 \<le> mx"
  shows "(get_conversation_history U mm fs now uid = Inr h
            \<and> save_conversation U mx mm fs now0 now1 uid um br md = Inr fs' \<longrightarrow>
            get_conversation_history U mm fs' now' uid
              = Inr (last_n (nat mx) (h @ [new_turn now1 um br md]))
            \<and> last (last_n (nat mx) (h @ [new_turn now1 um br md])) = new_turn now1 um br md
            \<and> int (length (last_n (nat mx) (h @ [new_turn now1 um br md]))) \<le> mx)
       \<and> (store_bounded mx fs \<and> save_conversation U mx mm fs now0 now1 uid um br md = Inr fs'
            \<longrightarrow> store_bounded mx fs')
       \<and> (store_bounded mx fs \<and> update_user_preferences U mm fs now uid patch = Inr fs'
            \<longrightarrow> store_bounded mx fs')
       \<and> (store_bounded mx fs \<and> clear_user_memory U mm fs now uid = Inr fs'
            \<longrightarrow> store_bounded mx fs')"
proof (intro conjI impI)
  assume a: "get_conversation_history U mm fs now uid = Inr h
            \<and> save_conversation U mx mm fs now0 now1 uid um br md = Inr fs'"
  from assms have "0 \<le> mx" "mx \<noteq> 0" by simp_all
  with a history_after_save[of mx U mm fs now uid h now0 now1 um br md fs' now']
  show "get_conversation_history U mm fs' now' uid
              = Inr (last_n (nat mx) (h @ [new_turn now1 um br md]))"
    by simp
next
  from assms have "0 < nat mx" by simp
  then show "last (last_n (nat mx) (h @ [new_turn now1 um br md])) = new_turn now1 um br md"
    by (rule last_n_snoc)
next
  from assms have "0 < nat mx" by simp
  then have "length (last_n (nat mx) (h @ [new_turn now1 um br md])) \<le> nat mx"
    by (rule last_n_snoc)
  with assms show "int (length (last_n (nat mx) (h @ [new_turn now1 um br md]))) \<le> mx"
    by simp
next
  assume "store_bounded mx fs \<and> save_conversation U mx mm fs now0 now1 uid um br md = Inr fs'"
  with assms show "store_bounded mx fs'"
    using store_bounded_save by blast
next
  assume "store_bounded mx fs \<and> update_user_preferences U mm fs now uid patch = Inr fs'"
  with assms show "store_bounded mx fs'"
    using store_bounded_update[of mx fs U mm now uid patch fs'] by simp
next
  assume "store_bounded mx fs \<and> clear_user_memory U mm fs now uid = Inr fs'"
  with assms show "store_bounded mx fs'"
    using store_bounded_clear[of mx fs U mm now uid fs'] by simp
qed

lemma append_at_cap_zero_keeps_all:
  assumes "get_conversation_history U mm fs now uid = Inr h"
    and "save_conversation U 0 mm fs now0 now1 uid um br md = Inr fs'"
  shows "get_conversation_history U mm fs' now' uid = Inr (h @ [new_turn now1 um br md])"
  using history_after_save[of 0 U mm fs now uid h now0 now1 um br md fs' now'] assms by simp

lemma list_users_after_append:
  assumes ne: "memory_path mm \<noteq> []" and d: "memory_path mm \<in> set (dirs fs)"
    and s: "save_conversation U mx mm fs now0 now1 uid um br md = Inr fs'"
  shows "\<exists>before after. list_users mm fs = Inr before \<and> list_users mm fs' = Inr after
           \<and> set after = insert (filter (safe_char U) uid) (set before)"
proof -
  let ?mp = "memory_path mm"
  let ?n = "length (dir_prefix ?mp)"
  let ?p = "get_user_file_path U mm uid"
  let ?stem = "filter (safe_char U) uid"
  let ?names = "\<lambda>fs. map (drop ?n) (filter (is_child ?mp) (map fst (files fs) @ dirs fs))"
  let ?users = "\<lambda>fs. map (str_replace (lit ''.json'') [])
                  (filter (\<lambda>filename. endswith filename (lit ''.json'')) (?names fs))"
  from s obtain m where w: "write_json fs ?p m = Inr fs'"
    using save_conversation_write by blast
  then have d': "?mp \<in> set (dirs fs')" using d write_json_Inr(1)[OF w] by simp
  have pn: "drop ?n ?p = ?stem @ lit ''.json''"
    by (simp add: get_user_file_path_eq)
  have names': "set (?names fs') = insert (?stem @ lit ''.json'') (set (?names fs))"
    using listed_after_write[OF w, of ?n ?mp] is_child_user_file[of mm U uid] pn by simp
  have e: "endswith (?stem @ lit ''.json'') (lit ''.json'')"
    by (simp add: endswith_def)
  have r: "str_replace (lit ''.json'') [] (?stem @ lit ''.json'') = ?stem"
    using safe_char_not_dot by (intro str_replace_stem) auto
  have "set (?users fs') = str_replace (lit ''.json'') []
          ` {name \<in> set (?names fs'). endswith name (lit ''.json'')}"
    by auto
  also have "{name \<in> set (?names fs'). endswith name (lit ''.json'')}
             = insert (?stem @ lit ''.json'') {name \<in> set (?names fs). endswith name (lit ''.json'')}"
    unfolding names' using e by auto
  also have "str_replace (lit ''.json'') [] ` \<dots>
             = insert ?stem (str_replace (lit ''.json'') []
                  ` {name \<in> set (?names fs). endswith name (lit ''.json'')})"
    by (simp add: r)
  also have "str_replace (lit ''.json'') []
                  ` {name \<in> set (?names fs). endswith name (lit ''.json'')} = set (?users fs)"
    by auto
  finally have "set (?users fs') = insert ?stem (set (?users fs))" .
  moreover have "list_users mm fs = Inr (?users fs)" by (rule list_users_Inr[OF ne d])
  moreover have "list_users mm fs' = Inr (?users fs')" by (rule list_users_Inr[OF ne d'])
  ultimately show ?thesis
    by (intro exI[of _ "?users fs"] exI[of _ "?users fs'"] conjI)
qed

lemma unsafe_id_differs_from_stem:
  "\<not> list_all (safe_char U) uid \<Longrightarrow> filter (safe_char U) uid \<noteq> uid"
  by (metis filter_id_conv list_all_iff)

lemma raw_id_not_listed_when_store_owned:
  assumes "store_owned U mm fs" and "\<not> list_all (safe_char U) uid"
    and "list_users mm fs = Inr before"
  shows "uid \<notin> set before"
proof
  assume m: "uid \<in> set before"
  from assms(1) obtain names where n: "os_listdir fs (memory_path mm) = Inr names"
    and all: "list_all (store_name U) names"
    by (auto simp: store_owned_def split: sum.splits)
  from assms(3) n have "before = [] \<or> before = map (str_replace (lit ''.json'') [])
                     (filter (\<lambda>filename. endswith filename (lit ''.json'')) names)"
    by (auto simp: list_users_def split: if_splits)
  with m obtain name where "name \<in> set names" and "uid = str_replace (lit ''.json'') [] name"
    by auto
  with all have "list_all (safe_char U) uid"
    using store_name_replace[of U name] by (simp add: list_all_iff)
  with assms(2) show False by simp
qed

subsection \<open>More example data\<close>


lemma ex_load_nofile:
  "get_user_memory ascii_only ex_mm ex_nofile now (lit ''alice'')
   = Inr (create_default_memory now (lit ''alice''))"
  by (simp add: get_user_memory_def os_path_exists_def ex_path Let_def)
     (simp add: ex_nofile_def MEMORY_PATH_def lit_def)



lemma ex_write_nofile:
  "write_json ex_nofile (get_user_file_path ascii_only ex_mm (lit ''alice'')) m = Inr (ex_fs (Parsed m))"
proof -
  have "write_json ex_nofile (get_user_file_path ascii_only ex_mm (lit ''alice'')) m
        = Inr (ex_nofile\<lparr>files := fs_put (get_user_file_path ascii_only ex_mm (lit ''alice''))
                                      (Parsed m) (files ex_nofile)\<rparr>)"
  proof (rule write_json_ok[where d = "memory_path ex_mm"])
    show "get_user_file_path ascii_only ex_mm (lit ''alice'') \<notin> set (dirs ex_nofile)"
      by (simp add: ex_path) (simp add: ex_nofile_def MEMORY_PATH_def lit_def)
    show "memory_path ex_mm \<in> set (dirs ex_nofile)"
      by (simp add: ex_mm_def ex_nofile_def)
    show "is_child (memory_path ex_mm) (get_user_file_path ascii_only ex_mm (lit ''alice''))"
      by (rule is_child_user_file)
  qed
  then show ?thesis
    by (simp add: ex_path ex_nofile_def ex_fs_def)
qed






lemma ex_save_cap_zero:
  "save_conversation ascii_only 0 ex_mm ex_nofile now0 now1 (lit ''alice'') um br None
   = Inr (ex_fs (Parsed ((create_default_memory now0 (lit ''alice''))
                           \<lparr>conversations := [new_turn now1 um br None]\<rparr>)))"
proof -
  have "trim_to_cap 0 (conversations (create_default_memory now0 (lit ''alice''))
          @ [new_turn now1 um br None]) = [new_turn now1 um br None]"
    by (simp add: trim_to_cap_def py_slice_from_def create_default_memory_def)
  then show ?thesis
    by (simp add: save_conversation_alt ex_load_nofile ex_write_nofile)
qed

lemma ex_stem_ab: "filter (safe_char ascii_only) (lit ''a.b'') = lit ''ab''"
  by (simp add: safe_char_def isalnum_def lit_def)

lemma ex_path_ab:
  "get_user_file_path ascii_only ex_mm (lit ''a.b'') = lit ''memory/users/ab.json''"
  by (simp add: get_user_file_path_eq ex_stem_ab)
     (simp add: ex_mm_def MEMORY_PATH_def dir_prefix_def endswith_def lit_def)

lemma ex_save_foreign:
  "save_conversation ascii_only 10 ex_mm ex_foreign (lit ''t0'') (lit ''t1'') (lit ''a.b'')
     (lit ''q'') (lit ''a'') None = Inr ex_foreign_after"
proof -
  have l: "get_user_memory ascii_only ex_mm ex_foreign (lit ''t0'') (lit ''a.b'')
           = Inr (create_default_memory (lit ''t0'') (lit ''a.b''))"
    by (simp add: get_user_memory_def os_path_exists_def ex_path_ab Let_def)
       (simp add: ex_foreign_def MEMORY_PATH_def lit_def)
  have t: "trim_to_cap 10 (conversations (create_default_memory (lit ''t0'') (lit ''a.b''))
             @ [new_turn (lit ''t1'') (lit ''q'') (lit ''a'') None])
           = [new_turn (lit ''t1'') (lit ''q'') (lit ''a'') None]"
    by (simp add: trim_to_cap_def create_default_memory_def)
  have w0: "write_json ex_foreign (get_user_file_path ascii_only ex_mm (lit ''a.b'')) m
           = Inr (ex_foreign\<lparr>files := fs_put (get_user_file_path ascii_only ex_mm (lit ''a.b''))
                                         (Parsed m) (files ex_foreign)\<rparr>)" for m
  proof (rule write_json_ok[where d = "memory_path ex_mm"])
    show "get_user_file_path ascii_only ex_mm (lit ''a.b'') \<notin> set (dirs ex_foreign)"
      by (simp add: ex_path_ab) (simp add: ex_foreign_def MEMORY_PATH_def lit_def)
    show "memory_path ex_mm \<in> set (dirs ex_foreign)"
      by (simp add: ex_mm_def ex_foreign_def)
    show "is_child (memory_path ex_mm) (get_user_file_path ascii_only ex_mm (lit ''a.b''))"
      by (rule is_child_user_file)
  qed
  have w: "write_json ex_foreign (lit ''memory/users/ab.json'') m
           = Inr (ex_foreign\<lparr>files := fs_put (lit ''memory/users/ab.json'')
                                         (Parsed m) (files ex_foreign)\<rparr>)" for m
    using w0[of m] by (simp only: ex_path_ab)
  have p: "fs_put (lit ''memory/users/ab.json'') f (files ex_foreign)
           = [(lit ''memory/users/a.b.json'', Parsed (ex_memory [])), (lit ''memory/users/ab.json'', f)]"
    for f
    by (simp add: ex_foreign_def lit_def)
  show ?thesis
    by (simp add: save_conversation_alt l t ex_path_ab w p) (simp add: ex_foreign_after_def ex_foreign_def)
qed

lemma ex_list_foreign_after: "list_users ex_mm ex_foreign_after = Inr [lit ''a.b'', lit ''ab'']"
proof -
  have n: "os_listdir ex_foreign_after (memory_path ex_mm) = Inr [lit ''a.b.json'', lit ''ab.json'']"
    by (simp add: os_listdir_def ex_foreign_after_def ex_mm_def MEMORY_PATH_def is_child_def
          dir_prefix_def endswith_def lit_def Let_def)
  have e: "os_path_exists ex_foreign_after (memory_path ex_mm)"
    by (simp add: os_path_exists_def ex_foreign_after_def ex_mm_def MEMORY_PATH_def lit_def)
  have r1: "str_replace (lit ''.json'') [] (lit ''a.b.json'') = lit ''a.b''"
    by code_simp
  have r2: "str_replace (lit ''.json'') [] (lit ''ab.json'') = lit ''ab''"
    by code_simp
  have e1: "endswith (lit ''a.b.json'') (lit ''.json'')" by code_simp
  have e2: "endswith (lit ''ab.json'') (lit ''.json'')" by code_simp
  show ?thesis
    by (simp add: list_users_def e n e1 e2 r1 r2)
qed

section \<open>A severe query\<close>




section \<open>A failing generation chain\<close>




section \<open>The bound on the stored history\<close>

text \<open>
  Claim C3 says that every operation keeps the stored conversations within the
  configured maximum. \<open>save_conversation\<close> trims with \<open>conversations[-MAX:]\<close> under the
  comment that it keeps the last \<open>N\<close> conversations; for a maximum of \<open>0\<close> that slice is
  \<open>conversations[-0:]\<close>, the whole list. So with the maximum configured as \<open>0\<close>, an
  append to a store that respects the bound leaves a history of one turn. For a maximum
  of at least one the claim holds, as shown above.
\<close>

theorem append_at_cap_zero_breaks_bound:
  "store_bounded 0 ex_nofile
   \<and> save_conversation ascii_only 0 ex_mm ex_nofile (lit ''t0'') (lit ''t1'') (lit ''alice'')
       (lit ''q'') (lit ''a'') None
     = Inr (ex_fs (Parsed ((create_default_memory (lit ''t0'') (lit ''alice''))
                             \<lparr>conversations := [new_turn (lit ''t1'') (lit ''q'') (lit ''a'') None]\<rparr>)))
   \<and> get_conversation_history ascii_only ex_mm
       (ex_fs (Parsed ((create_default_memory (lit ''t0'') (lit ''alice''))
                         \<lparr>conversations := [new_turn (lit ''t1'') (lit ''q'') (lit ''a'') None]\<rparr>)))
       (lit ''t2'') (lit ''alice'')
     = Inr [new_turn (lit ''t1'') (lit ''q'') (lit ''a'') None]
   \<and> \<not> store_bounded 0
         (ex_fs (Parsed ((create_default_memory (lit ''t0'') (lit ''alice''))
                           \<lparr>conversations := [new_turn (lit ''t1'') (lit ''q'') (lit ''a'') None]\<rparr>)))"
proof (intro conjI)
  show "store_bounded 0 ex_nofile"
    by (simp add: store_bounded_def ex_nofile_def)
  show "save_conversation ascii_only 0 ex_mm ex_nofile (lit ''t0'') (lit ''t1'') (lit ''alice'')
       (lit ''q'') (lit ''a'') None
     = Inr (ex_fs (Parsed ((create_default_memory (lit ''t0'') (lit ''alice''))
                             \<lparr>conversations := [new_turn (lit ''t1'') (lit ''q'') (lit ''a'') None]\<rparr>)))"
    by (rule ex_save_cap_zero)
  show "get_conversation_history ascii_only ex_mm
       (ex_fs (Parsed ((create_default_memory (lit ''t0'') (lit ''alice''))
                         \<lparr>conversations := [new_turn (lit ''t1'') (lit ''q'') (lit ''a'') None]\<rparr>)))
       (lit ''t2'') (lit ''alice'')
     = Inr [new_turn (lit ''t1'') (lit ''q'') (lit ''a'') None]"
    by (simp add: ex_history)
  show "\<not> store_bounded 0
         (ex_fs (Parsed ((create_default_memory (lit ''t0'') (lit ''alice''))
                           \<lparr>conversations := [new_turn (lit ''t1'') (lit ''q'') (lit ''a'') None]\<rparr>)))"
    by (simp add: store_bounded_def ex_fs_def)
qed

section \<open>Loading a file that is not UTF-8\<close>

text \<open>
  Claim C4 says that a load never raises and answers a corrupt file with the default
  memory. The handler of \<open>get_user_memory\<close> names \<open>json.JSONDecodeError\<close> and \<open>IOError\<close>
  only. A file whose bytes are not valid UTF-8 makes the read raise \<open>UnicodeDecodeError\<close>,
  which is neither, so the load raises: here for user \<open>alice\<close>, whose file is such a file.
\<close>

theorem get_user_memory_raises_on_undecodable_file:
  "get_user_memory ascii_only ex_mm (ex_fs (Corrupt UnicodeDecodeError))
     (lit ''2024-01-02T00:00:00'') (lit ''alice'') = Inl UnicodeDecodeError"
  by (simp add: get_user_memory_uncaught ex_exists ex_read)

section \<open>The history put into the prompt\<close>

text \<open>
  Claim C5 says that the history string of the pipeline is the store's
  \<open>get_formatted_history\<close> with \<open>max_turns=10\<close>. The pipeline has its own formatter,
  \<open>_format_chat_history\<close>, which appends \<open>...\<close> to every reply, cut or not; the store's
  appends it only to a reply longer than 200 characters. The two agree when there is no
  history and when every reply among the last ten is longer than 200 characters; on a
  history with one short reply they differ.
\<close>

theorem format_chat_history_differs_on_short_reply:
  "format_chat_history ascii_only ex_rag (ex_fs (Parsed (ex_memory [ex_turn ''hi'' ''hello''])))
     (lit ''t'') (lit ''alice'')
   = Inr (lit ''User: hi\<newline>Assistant: hello...'')
   \<and> get_formatted_history ascii_only (memory_manager ex_rag)
       (ex_fs (Parsed (ex_memory [ex_turn ''hi'' ''hello'']))) (lit ''t'') (lit ''alice'') 10
     = Inr (lit ''User: hi\<newline>Assistant: hello'')
   \<and> format_chat_history ascii_only ex_rag (ex_fs (Parsed (ex_memory [ex_turn ''hi'' ''hello''])))
       (lit ''t'') (lit ''alice'')
     \<noteq> get_formatted_history ascii_only (memory_manager ex_rag)
         (ex_fs (Parsed (ex_memory [ex_turn ''hi'' ''hello'']))) (lit ''t'') (lit ''alice'') 10"
proof -
  have h: "get_conversation_history ascii_only ex_mm
             (ex_fs (Parsed (ex_memory [ex_turn ''hi'' ''hello'']))) (lit ''t'') (lit ''alice'')
           = Inr [ex_turn ''hi'' ''hello'']"
    by (simp add: ex_history ex_memory_def)
  have a: "format_chat_history ascii_only ex_rag (ex_fs (Parsed (ex_memory [ex_turn ''hi'' ''hello''])))
     (lit ''t'') (lit ''alice'') = Inr (lit ''User: hi\<newline>Assistant: hello...'')"
    by (simp add: format_chat_history_def ex_rag_def h) (simp add: py_slice_from_def ex_turn_def lit_def)
  have b: "get_formatted_history ascii_only (memory_manager ex_rag)
       (ex_fs (Parsed (ex_memory [ex_turn ''hi'' ''hello'']))) (lit ''t'') (lit ''alice'') 10
     = Inr (lit ''User: hi\<newline>Assistant: hello'')"
    by (simp add: get_formatted_history_def ex_rag_def h) (simp add: py_slice_from_def ex_turn_def lit_def)
  show ?thesis unfolding a b by (simp add: lit_def)
qed

section \<open>The severity classifier\<close>

lemma keyword_loop_ex: "keyword_loop ks q = (\<exists>k\<in>set ks. sublist k q)"
  by (induction ks) (auto simp: str_contains_sublist)

lemma lower_keywords: "map (lower U) SEVERITY_KEYWORDS = SEVERITY_KEYWORDS"
  by (simp add: SEVERITY_KEYWORDS_def lower_def is_ascii_def lit_def ascii_lower_def)

text \<open>
  Claim C6. For every query, \<open>_check_severity\<close> answers true exactly when some phrase of
  \<open>SEVERITY_KEYWORDS\<close> occurs as a substring of the query, compared without regard to
  case. The function reads nothing but the query and that constant list, so equal queries
  get equal answers.
\<close>

theorem check_severity_iff_spec: "check_severity U query = is_severe_spec U query"
proof -
  have "is_severe_spec U query
        = (\<exists>k \<in> set (map (lower U) SEVERITY_KEYWORDS). sublist k (lower U query))"
    unfolding is_severe_spec_def by simp
  then show ?thesis
    by (simp only: lower_keywords check_severity_def keyword_loop_ex)
qed

theorem check_severity_iff_spec_witness:
  "is_severe_spec ascii_only (lit ''I have CHEST Pain'')
   \<and> \<not> is_severe_spec ascii_only (lit ''a mild headache for two days'')"
proof -
  have "check_severity ascii_only (lit ''I have CHEST Pain'')"
    by code_simp
  moreover have "\<not> check_severity ascii_only (lit ''a mild headache for two days'')"
    by code_simp
  ultimately show ?thesis
    using check_severity_iff_spec[of ascii_only "lit ''I have CHEST Pain''"]
      check_severity_iff_spec[of ascii_only "lit ''a mild headache for two days''"]
    by simp
qed

section \<open>One storage path per user\<close>



section \<open>Updating preferences\<close>

text \<open>
  Claim C8. \<open>update_user_preferences\<close> merges key by key. When the user's storage is in
  working order and the loaded record has preferences \<open>p\<close>, the update with patch \<open>d\<close>
  succeeds, and reading the preferences afterwards gives \<open>p\<close> overridden by \<open>d\<close>: each key
  of \<open>d\<close> has \<open>d\<close>'s value, each key outside \<open>d\<close> keeps the value it had in \<open>p\<close>. The
  conversations are untouched.
\<close>

theorem update_user_preferences_merges:
  assumes "store_ready U mm fs uid"
    and "get_user_memory U mm fs now uid = Inr memory"
  shows "\<exists>fs'. update_user_preferences U mm fs now uid patch = Inr fs'
            \<and> get_user_preferences U mm fs' now' uid = Inr (preferences memory ++ patch)
            \<and> (\<forall>k v. patch k = Some v \<longrightarrow> (preferences memory ++ patch) k = Some v)
            \<and> (\<forall>k. patch k = None \<longrightarrow> (preferences memory ++ patch) k = preferences memory k)
            \<and> get_conversation_history U mm fs' now' uid = Inr (conversations memory)"
proof -
  let ?m' = "memory\<lparr>preferences := preferences memory ++ patch\<rparr>"
  let ?fs' = "fs\<lparr>files := fs_put (get_user_file_path U mm uid) (Parsed ?m') (files fs)\<rparr>"
  have w: "write_json fs (get_user_file_path U mm uid) ?m' = Inr ?fs'"
    using assms(1) by (rule write_user_file_ready)
  then have u: "update_user_preferences U mm fs now uid patch = Inr ?fs'"
    using assms(2) by (simp add: update_user_preferences_def)
  from w have g: "get_user_memory U mm ?fs' now' uid = Inr ?m'"
    by (rule get_user_memory_after_write)
  have "get_user_preferences U mm ?fs' now' uid = Inr (preferences memory ++ patch)"
    unfolding get_user_preferences_def g by simp
  moreover have "get_conversation_history U mm ?fs' now' uid = Inr (conversations memory)"
    unfolding get_conversation_history_def g by simp
  moreover have "\<forall>k v. patch k = Some v \<longrightarrow> (preferences memory ++ patch) k = Some v"
    by (simp add: map_add_def)
  moreover have "\<forall>k. patch k = None \<longrightarrow> (preferences memory ++ patch) k = preferences memory k"
    by (simp add: map_add_def)
  ultimately show ?thesis using u by blast
qed

theorem update_user_preferences_merges_witness:
  "store_ready ascii_only ex_mm (ex_fs (Parsed (ex_memory []))) (lit ''alice'')
   \<and> get_user_memory ascii_only ex_mm (ex_fs (Parsed (ex_memory []))) (lit ''t'') (lit ''alice'')
       = Inr (ex_memory [])
   \<and> (\<exists>fs'.
         update_user_preferences ascii_only ex_mm (ex_fs (Parsed (ex_memory []))) (lit ''t'')
           (lit ''alice'') [lit ''allergies'' \<mapsto> JList [JStr (lit ''penicillin'')]] = Inr fs'
         \<and> get_user_preferences ascii_only ex_mm fs' (lit ''t2'') (lit ''alice'')
             = Inr (preferences (ex_memory [])
                    ++ [lit ''allergies'' \<mapsto> JList [JStr (lit ''penicillin'')]]))
   \<and> (preferences (ex_memory []) ++ [lit ''allergies'' \<mapsto> JList [JStr (lit ''penicillin'')]])
         (lit ''allergies'') = Some (JList [JStr (lit ''penicillin'')])
   \<and> (preferences (ex_memory []) ++ [lit ''allergies'' \<mapsto> JList [JStr (lit ''penicillin'')]])
         (lit ''name'') = Some (JStr (lit ''alice''))"
proof -
  let ?fs = "ex_fs (Parsed (ex_memory []))"
  let ?patch = "[lit ''allergies'' \<mapsto> JList [JStr (lit ''penicillin'')]]"
  have r: "store_ready ascii_only ex_mm ?fs (lit ''alice'')" by (rule ex_ready) simp
  have l: "get_user_memory ascii_only ex_mm ?fs (lit ''t'') (lit ''alice'') = Inr (ex_memory [])"
    by (rule ex_memory_load)
  from update_user_preferences_merges[OF r l, of ?patch "lit ''t2''"]
  obtain fs' where
    u: "update_user_preferences ascii_only ex_mm ?fs (lit ''t'') (lit ''alice'') ?patch = Inr fs'"
    and g: "get_user_preferences ascii_only ex_mm fs' (lit ''t2'') (lit ''alice'')
            = Inr (preferences (ex_memory []) ++ ?patch)"
    and k1: "\<forall>k v. ?patch k = Some v \<longrightarrow> (preferences (ex_memory []) ++ ?patch) k = Some v"
    and k2: "\<forall>k. ?patch k = None \<longrightarrow> (preferences (ex_memory []) ++ ?patch) k = preferences (ex_memory []) k"
    by blast
  have "?patch (lit ''allergies'') = Some (JList [JStr (lit ''penicillin'')])" by simp
  with k1 have a: "(preferences (ex_memory []) ++ ?patch) (lit ''allergies'')
                   = Some (JList [JStr (lit ''penicillin'')])" by blast
  have "?patch (lit ''name'') = None" by (simp add: lit_def)
  with k2 have "(preferences (ex_memory []) ++ ?patch) (lit ''name'')
                = preferences (ex_memory []) (lit ''name'')" by blast
  then have b: "(preferences (ex_memory []) ++ ?patch) (lit ''name'') = Some (JStr (lit ''alice''))"
    by (simp add: ex_memory_def)
  from u g have "\<exists>fs'. update_user_preferences ascii_only ex_mm ?fs (lit ''t'') (lit ''alice'') ?patch = Inr fs'
      \<and> get_user_preferences ascii_only ex_mm fs' (lit ''t2'') (lit ''alice'')
          = Inr (preferences (ex_memory []) ++ ?patch)"
    by (intro exI[of _ fs'] conjI)
  with r l a b show ?thesis by (intro conjI)
qed

section \<open>Listing users\<close>

text \<open>
  Claim C9, amended. Where the memory directory exists, \<open>list_users\<close> reports exactly the
  entries of the directory whose name ends in \<open>.json\<close>, each with \<open>.json\<close> removed. After
  an append for a user id, the list is the list from before the append with the sanitised
  id added. So the sanitised id is listed; and a user id with a character other than
  alphanumerics, hyphen and underscore differs from its sanitised form and is listed after
  the append exactly when it was listed before it.
\<close>

theorem list_users_reports_sanitized_ids:
  "(memory_path mm \<noteq> [] \<and> memory_path mm \<in> set (dirs fs0) \<longrightarrow>
      (\<exists>users names.
          list_users mm fs0 = Inr users \<and> os_listdir fs0 (memory_path mm) = Inr names
          \<and> set users = str_replace (lit ''.json'') []
                          ` {name \<in> set names. endswith name (lit ''.json'')}))
   \<and> (memory_path mm \<noteq> [] \<and> memory_path mm \<in> set (dirs fs)
       \<and> save_conversation U mx mm fs now0 now1 uid um br md = Inr fs' \<longrightarrow>
      (\<exists>before after.
          list_users mm fs = Inr before \<and> list_users mm fs' = Inr after
          \<and> set after = insert (filter (safe_char U) uid) (set before)
          \<and> filter (safe_char U) uid \<in> set after
          \<and> (\<not> list_all (safe_char U) uid \<longrightarrow>
                filter (safe_char U) uid \<noteq> uid
                \<and> (uid \<in> set after) = (uid \<in> set before))))"
proof (intro conjI impI)
  assume "memory_path mm \<noteq> [] \<and> memory_path mm \<in> set (dirs fs0)"
  then have ne: "memory_path mm \<noteq> []" and d: "memory_path mm \<in> set (dirs fs0)" by simp_all
  show "\<exists>users names.
          list_users mm fs0 = Inr users \<and> os_listdir fs0 (memory_path mm) = Inr names
          \<and> set users = str_replace (lit ''.json'') []
                          ` {name \<in> set names. endswith name (lit ''.json'')}"
    unfolding list_users_Inr[OF ne d] os_listdir_Inr[OF d] by auto
next
  assume a: "memory_path mm \<noteq> [] \<and> memory_path mm \<in> set (dirs fs)
       \<and> save_conversation U mx mm fs now0 now1 uid um br md = Inr fs'"
  then have ne: "memory_path mm \<noteq> []" and d: "memory_path mm \<in> set (dirs fs)"
    and s: "save_conversation U mx mm fs now0 now1 uid um br md = Inr fs'"
    by simp_all
  from list_users_after_append[OF ne d s]
  obtain before after where b: "list_users mm fs = Inr before"
    and c: "list_users mm fs' = Inr after"
    and e: "set after = insert (filter (safe_char U) uid) (set before)"
    by (elim exE conjE)
  have i: "filter (safe_char U) uid \<in> set after"
    unfolding e by simp
  have u: "\<not> list_all (safe_char U) uid \<longrightarrow>
                filter (safe_char U) uid \<noteq> uid
                \<and> (uid \<in> set after) = (uid \<in> set before)"
    unfolding e using unsafe_id_differs_from_stem[of U uid] by auto
  from b c e i u
  show "\<exists>before after.
          list_users mm fs = Inr before \<and> list_users mm fs' = Inr after
          \<and> set after = insert (filter (safe_char U) uid) (set before)
          \<and> filter (safe_char U) uid \<in> set after
          \<and> (\<not> list_all (safe_char U) uid \<longrightarrow>
                filter (safe_char U) uid \<noteq> uid
                \<and> (uid \<in> set after) = (uid \<in> set before))"
    by (intro exI[of _ before] exI[of _ after] conjI)
qed

theorem list_users_reports_sanitized_ids_witness:
  "memory_path ex_mm \<noteq> []
   \<and> memory_path ex_mm \<in> set (dirs (ex_fs (Parsed (ex_memory []))))
   \<and> \<not> list_all (safe_char ascii_only) (lit ''../bob'')
   \<and> (\<exists>fs' before after.
         save_conversation ascii_only 10 ex_mm (ex_fs (Parsed (ex_memory [])))
           (lit ''t0'') (lit ''t1'') (lit ''../bob'') (lit ''q'') (lit ''a'') None = Inr fs'
         \<and> list_users ex_mm (ex_fs (Parsed (ex_memory []))) = Inr before
         \<and> list_users ex_mm fs' = Inr after
         \<and> set after = insert (lit ''bob'') (set before)
         \<and> lit ''bob'' \<noteq> lit ''../bob''
         \<and> (lit ''../bob'' \<in> set after) = (lit ''../bob'' \<in> set before))
   \<and> (\<exists>users names. list_users ex_mm (ex_fs (Parsed (ex_memory []))) = Inr users
         \<and> os_listdir (ex_fs (Parsed (ex_memory []))) (memory_path ex_mm) = Inr names
         \<and> set users = str_replace (lit ''.json'') []
                         ` {name \<in> set names. endswith name (lit ''.json'')})"
proof -
  let ?fs = "ex_fs (Parsed (ex_memory []))"
  from save_conversation_ready[OF ex_ready_bob, of 10 "Parsed (ex_memory [])" "lit ''t0''"
      "lit ''t1''" "lit ''q''" "lit ''a''" None]
  obtain fs1 where s: "save_conversation ascii_only 10 ex_mm ?fs (lit ''t0'') (lit ''t1'')
        (lit ''../bob'') (lit ''q'') (lit ''a'') None = Inr fs1"
    by (rule exE)
  note dir = ex_dir[of "Parsed (ex_memory [])"]
  note inst = list_users_reports_sanitized_ids[where mm = ex_mm and ?fs0.0 = ?fs
      and U = ascii_only and uid = "lit ''../bob''" and fs = ?fs and mx = 10
      and ?now0.0 = "lit ''t0''" and ?now1.0 = "lit ''t1''" and um = "lit ''q''"
      and br = "lit ''a''" and md = None and fs' = fs1]
  from inst dir s ex_unsafe_id
  have "\<exists>before after.
          list_users ex_mm ?fs = Inr before \<and> list_users ex_mm fs1 = Inr after
          \<and> set after = insert (filter (safe_char ascii_only) (lit ''../bob'')) (set before)
          \<and> filter (safe_char ascii_only) (lit ''../bob'') \<noteq> lit ''../bob''
          \<and> (lit ''../bob'' \<in> set after) = (lit ''../bob'' \<in> set before)"
    by auto
  then obtain before after where
    "list_users ex_mm ?fs = Inr before" "list_users ex_mm fs1 = Inr after"
    "set after = insert (lit ''bob'') (set before)"
    "lit ''bob'' \<noteq> lit ''../bob''"
    "(lit ''../bob'' \<in> set after) = (lit ''../bob'' \<in> set before)"
    unfolding ex_stem_bob by (elim exE conjE)
  with s have a: "\<exists>fs' before after.
         save_conversation ascii_only 10 ex_mm ?fs
           (lit ''t0'') (lit ''t1'') (lit ''../bob'') (lit ''q'') (lit ''a'') None = Inr fs'
         \<and> list_users ex_mm ?fs = Inr before
         \<and> list_users ex_mm fs' = Inr after
         \<and> set after = insert (lit ''bob'') (set before)
         \<and> lit ''bob'' \<noteq> lit ''../bob''
         \<and> (lit ''../bob'' \<in> set after) = (lit ''../bob'' \<in> set before)"
    by (intro exI[of _ fs1] exI[of _ before] exI[of _ after] conjI)
  from inst dir
  have b: "\<exists>users names. list_users ex_mm ?fs = Inr users
            \<and> os_listdir ?fs (memory_path ex_mm) = Inr names
            \<and> set users = str_replace (lit ''.json'') []
                            ` {name \<in> set names. endswith name (lit ''.json'')}"
    by blast
  from dir ex_unsafe_id a b show ?thesis by (intro conjI) simp_all
qed

text \<open>
  As first worded, claim C9 says that the raw id is never listed after an append. A memory
  directory that already holds a file \<open>a.b.json\<close> lists \<open>a.b\<close>, and it still does after
  an append for the user id \<open>a.b\<close>, which is stored as \<open>ab.json\<close>.
\<close>

theorem list_users_lists_foreign_raw_id:
  "\<not> list_all (safe_char ascii_only) (lit ''a.b'')
   \<and> save_conversation ascii_only 10 ex_mm ex_foreign (lit ''t0'') (lit ''t1'') (lit ''a.b'')
       (lit ''q'') (lit ''a'') None = Inr ex_foreign_after
   \<and> list_users ex_mm ex_foreign_after = Inr [lit ''a.b'', lit ''ab'']
   \<and> lit ''a.b'' \<in> set [lit ''a.b'', lit ''ab'']"
proof (intro conjI)
  show "\<not> list_all (safe_char ascii_only) (lit ''a.b'')"
    by (simp add: safe_char_def isalnum_def lit_def)
  show "save_conversation ascii_only 10 ex_mm ex_foreign (lit ''t0'') (lit ''t1'') (lit ''a.b'')
       (lit ''q'') (lit ''a'') None = Inr ex_foreign_after"
    by (rule ex_save_foreign)
  show "list_users ex_mm ex_foreign_after = Inr [lit ''a.b'', lit ''ab'']"
    by (rule ex_list_foreign_after)
  show "lit ''a.b'' \<in> set [lit ''a.b'', lit ''ab'']"
    by simp
qed

section \<open>The default memory\<close>

text \<open>
  Claim C10. A freshly initialised memory has no conversations, and its preferences hold
  exactly the keys \<open>name\<close>, \<open>known_conditions\<close> and \<open>allergies\<close>: \<open>name\<close> bound to the
  user id as given (not sanitised), the other two to the empty list; so the preferences are
  never empty. This record is what a load returns for a user without a file and for a
  file on which reading raises \<open>JSONDecodeError\<close> or \<open>IOError\<close>, and what \<open>clear\<close> writes.
\<close>

theorem default_memory_shape:
  "conversations (create_default_memory now uid) = []
   \<and> dom (preferences (create_default_memory now uid))
       = {lit ''name'', lit ''known_conditions'', lit ''allergies''}
   \<and> preferences (create_default_memory now uid) (lit ''name'') = Some (JStr uid)
   \<and> preferences (create_default_memory now uid) (lit ''known_conditions'') = Some (JList [])
   \<and> preferences (create_default_memory now uid) (lit ''allergies'') = Some (JList [])
   \<and> preferences (create_default_memory now uid) \<noteq> Map.empty
   \<and> (\<not> os_path_exists fs (get_user_file_path U mm uid) \<longrightarrow>
        get_user_memory U mm fs now uid = Inr (create_default_memory now uid))
   \<and> (os_path_exists fs (get_user_file_path U mm uid)
        \<and> (read_json fs (get_user_file_path U mm uid) = Inl JSONDecodeError
           \<or> read_json fs (get_user_file_path U mm uid) = Inl IOError) \<longrightarrow>
        get_user_memory U mm fs now uid = Inr (create_default_memory now uid))
   \<and> (clear_user_memory U mm fs now uid = Inr fs' \<longrightarrow>
        read_json fs' (get_user_file_path U mm uid) = Inr (create_default_memory now uid)
        \<and> get_user_memory U mm fs' now' uid = Inr (create_default_memory now uid))"
proof -
  have ne: "preferences (create_default_memory now uid) \<noteq> Map.empty"
  proof
    assume "preferences (create_default_memory now uid) = Map.empty"
    then have "preferences (create_default_memory now uid) (lit ''name'') = None" by simp
    then show False by (simp add: default_memory_fields)
  qed
  have miss: "\<not> os_path_exists fs (get_user_file_path U mm uid) \<longrightarrow>
        get_user_memory U mm fs now uid = Inr (create_default_memory now uid)"
    using get_user_memory_missing by blast
  have caught: "os_path_exists fs (get_user_file_path U mm uid)
        \<and> (read_json fs (get_user_file_path U mm uid) = Inl JSONDecodeError
           \<or> read_json fs (get_user_file_path U mm uid) = Inl IOError) \<longrightarrow>
        get_user_memory U mm fs now uid = Inr (create_default_memory now uid)"
    using get_user_memory_caught by blast
  have clr: "clear_user_memory U mm fs now uid = Inr fs' \<longrightarrow>
        read_json fs' (get_user_file_path U mm uid) = Inr (create_default_memory now uid)
        \<and> get_user_memory U mm fs' now' uid = Inr (create_default_memory now uid)"
    unfolding clear_user_memory_def
    using read_after_write get_user_memory_after_write by blast
  from ne miss caught clr show ?thesis
    by (simp only: default_memory_fields) blast
qed

theorem default_memory_shape_witness:
  "\<not> os_path_exists (ex_fs (Corrupt JSONDecodeError)) (get_user_file_path ascii_only ex_mm (lit ''bob''))
   \<and> get_user_memory ascii_only ex_mm (ex_fs (Corrupt JSONDecodeError)) (lit ''t'') (lit ''bob'')
       = Inr (create_default_memory (lit ''t'') (lit ''bob''))
   \<and> os_path_exists (ex_fs (Corrupt JSONDecodeError)) (get_user_file_path ascii_only ex_mm (lit ''alice''))
   \<and> read_json (ex_fs (Corrupt JSONDecodeError)) (get_user_file_path ascii_only ex_mm (lit ''alice''))
       = Inl JSONDecodeError
   \<and> get_user_memory ascii_only ex_mm (ex_fs (Corrupt JSONDecodeError)) (lit ''t'') (lit ''alice'')
       = Inr (create_default_memory (lit ''t'') (lit ''alice''))
   \<and> (\<exists>fs'. clear_user_memory ascii_only ex_mm (ex_fs (Parsed (ex_memory [ex_turn ''q'' ''a''])))
               (lit ''t'') (lit ''alice'') = Inr fs'
            \<and> get_user_memory ascii_only ex_mm fs' (lit ''t2'') (lit ''alice'')
                = Inr (create_default_memory (lit ''t'') (lit ''alice'')))
   \<and> preferences (create_default_memory (lit ''t'') (lit ''../bob'')) (lit ''name'')
       = Some (JStr (lit ''../bob''))"
proof -
  let ?bad = "ex_fs (Corrupt JSONDecodeError)"
  let ?fs = "ex_fs (Parsed (ex_memory [ex_turn ''q'' ''a'']))"
  have m: "\<not> os_path_exists ?bad (get_user_file_path ascii_only ex_mm (lit ''bob''))"
    by (rule ex_missing_bob)
  have e: "os_path_exists ?bad (get_user_file_path ascii_only ex_mm (lit ''alice''))"
    by (rule ex_exists)
  have r: "read_json ?bad (get_user_file_path ascii_only ex_mm (lit ''alice'')) = Inl JSONDecodeError"
    by (simp add: ex_read)
  have ready: "store_ready ascii_only ex_mm ?fs (lit ''alice'')" by (rule ex_ready) simp
  obtain fs3 where c: "clear_user_memory ascii_only ex_mm ?fs (lit ''t'') (lit ''alice'') = Inr fs3"
    using write_user_file_ready[OF ready] by (simp add: clear_user_memory_def)
  from default_memory_shape[of "lit ''t''" "lit ''bob''" ?bad ascii_only ex_mm] m
  have a: "get_user_memory ascii_only ex_mm ?bad (lit ''t'') (lit ''bob'')
       = Inr (create_default_memory (lit ''t'') (lit ''bob''))"
    by blast
  from default_memory_shape[of "lit ''t''" "lit ''alice''" ?bad ascii_only ex_mm] e r
  have b: "get_user_memory ascii_only ex_mm ?bad (lit ''t'') (lit ''alice'')
       = Inr (create_default_memory (lit ''t'') (lit ''alice''))"
    by blast
  from default_memory_shape[of "lit ''t''" "lit ''alice''" ?fs ascii_only ex_mm fs3 "lit ''t2''"] c
  have d: "get_user_memory ascii_only ex_mm fs3 (lit ''t2'') (lit ''alice'')
       = Inr (create_default_memory (lit ''t'') (lit ''alice''))"
    by blast
  from default_memory_shape[of "lit ''t''" "lit ''../bob''"]
  have n: "preferences (create_default_memory (lit ''t'') (lit ''../bob'')) (lit ''name'')
       = Some (JStr (lit ''../bob''))"
    by blast
  from m a e r b c d n show ?thesis by blast
qed

end
